theory Spec2Isabelle
  imports Main
begin

section \<open>Data model of \<^verbatim>\<open>PDFBookmarkGenerator\<close> (src/core/bookmark\_generator.py)\<close>

text \<open>
  A Python \<^verbatim>\<open>str\<close> is a sequence of Unicode code points; it is modelled as the list of
  the integers \<^verbatim>\<open>ord(c)\<close>, so that the non-ASCII marker glyphs and keywords of the parser
  keep the length and the comparison behaviour they have in Python.  \<open>ascii\<close> embeds
  an ASCII literal.
\<close>

type_synonym pystr = "int list"

definition ascii :: "string \<Rightarrow> pystr" where
  "ascii s = map of_char s"

text \<open>
  A bookmark is the dict \<^verbatim>\<open>{'title': str, 'page': Optional[int], 'level': int}\<close>.
  Python integers are unbounded, hence \<open>int\<close>.
\<close>

record bookmark =
  title :: pystr
  page :: "int option"
  level :: int

text \<open>The dict appended to \<^verbatim>\<open>self.history\<close> by \<^verbatim>\<open>save_state\<close>.\<close>

record snapshot =
  snap_bookmarks :: "bookmark list"
  snap_original_bookmarks :: "bookmark list"
  snap_offset :: int

text \<open>The object serialised into the draft file by \<^verbatim>\<open>save_draft\<close>.\<close>

record draft_data =
  d_bookmarks :: "bookmark list"
  d_original_bookmarks :: "bookmark list"
  d_offset :: int
  d_toc_start_page :: int
  d_toc_end_page :: int
  d_content_start_page :: int
  d_output_filename :: pystr
  d_original_filename :: pystr

text \<open>
  The attributes of the generator object.  \<open>history\<close> is the \<^verbatim>\<open>deque(maxlen=5)\<close>, oldest
  snapshot first; \<open>draft\<close> is the content of the draft file (\<open>None\<close>: no file).
  The two bookmark lists hold values: the class only ever fills them with distinct dict
  objects (copies in \<^verbatim>\<open>parse_toc_text\<close> and \<^verbatim>\<open>undo\<close>, two dict literals in
  \<^verbatim>\<open>add_bookmark\<close>, freshly decoded JSON in \<^verbatim>\<open>load_draft\<close> and \<^verbatim>\<open>import_bookmarks\<close>).
\<close>

record store =
  uploaded_file :: "pystr option"
  bookmarks :: "bookmark list"
  original_bookmarks :: "bookmark list"
  offset :: int
  toc_start_page :: int
  toc_end_page :: int
  content_start_page :: int
  output_filename :: pystr
  original_filename :: pystr
  history :: "snapshot list"
  draft :: "draft_data option"

text \<open>
  A method either returns or raises; when it raises, the object keeps the state it had at
  the raise, so the state is part of both results.
\<close>

datatype py_error = IndexError | ValueError

datatype 'a outcome = Returned 'a | Raised py_error 'a

fun bind_outcome :: "'a outcome \<Rightarrow> ('a \<Rightarrow> 'a outcome) \<Rightarrow> 'a outcome" where
  "bind_outcome (Returned x) f = f x"
| "bind_outcome (Raised e x) f = Raised e x"

section \<open>Draft and undo history\<close>

text \<open>
  \<^verbatim>\<open>save_draft\<close>: the whole state is written over the draft file.  (A failing write is
  caught and reported by a print; the model takes the write to succeed.)
\<close>

definition save_draft :: "store \<Rightarrow> store" where
  "save_draft s = s\<lparr>draft := Some
     \<lparr>d_bookmarks = bookmarks s,
      d_original_bookmarks = original_bookmarks s,
      d_offset = offset s,
      d_toc_start_page = toc_start_page s,
      d_toc_end_page = toc_end_page s,
      d_content_start_page = content_start_page s,
      d_output_filename = output_filename s,
      d_original_filename = original_filename s\<rparr>\<rparr>"


text \<open>\<^verbatim>\<open>deque.append\<close> on a bounded deque: a full deque drops its oldest element.\<close>

definition deque_append :: "nat \<Rightarrow> 'a list \<Rightarrow> 'a \<Rightarrow> 'a list" where
  "deque_append maxlen d x = (let d' = d @ [x] in drop (length d' - maxlen) d')"

definition save_state :: "store \<Rightarrow> store" where
  "save_state s = s\<lparr>history := deque_append 5 (history s)
     \<lparr>snap_bookmarks = bookmarks s,
      snap_original_bookmarks = original_bookmarks s,
      snap_offset = offset s\<rparr>\<rparr>"

text \<open>\<^verbatim>\<open>undo\<close> returns its boolean together with the state it leaves.\<close>

definition undo :: "store \<Rightarrow> bool \<times> store" where
  "undo s =
     (if length (history s) > 1 then
        let h = butlast (history s);
            prev_state = last h
        in (True, save_draft (s\<lparr>history := h,
                                  bookmarks := snap_bookmarks prev_state,
                                  original_bookmarks := snap_original_bookmarks prev_state,
                                  offset := snap_offset prev_state\<rparr>))
      else (False, s))"

text \<open>
  \<^verbatim>\<open>__init__\<close> when no draft file exists (\<^verbatim>\<open>load_draft\<close> then changes nothing).
\<close>

definition new_store :: store where
  "new_store =
     \<lparr>uploaded_file = None, bookmarks = [], original_bookmarks = [], offset = 0,
      toc_start_page = 1, toc_end_page = 1, content_start_page = 1,
      output_filename = [], original_filename = [], history = [], draft = None\<rparr>"

text \<open>\<open>n\<close> successive calls of \<^verbatim>\<open>undo\<close>, whatever each returns.\<close>

primrec undo_times :: "nat \<Rightarrow> store \<Rightarrow> store" where
  "undo_times 0 s = s"
| "undo_times (Suc n) s = snd (undo (undo_times n s))"

section \<open>Edit operations of the outline store\<close>

definition add_bookmark :: "store \<Rightarrow> pystr \<Rightarrow> int option \<Rightarrow> int \<Rightarrow> store" where
  "add_bookmark s t p l =
     (let s1 = save_state s;
          s2 = s1\<lparr>bookmarks := bookmarks s1 @ [\<lparr>title = t, page = p, level = l\<rparr>]\<rparr>;
          s3 = s2\<lparr>original_bookmarks :=
                    original_bookmarks s2 @ [\<lparr>title = t, page = p, level = l\<rparr>]\<rparr>
      in save_draft s3)"

text \<open>\<^verbatim>\<open>del xs[i]\<close> for an index in range.\<close>

definition del_at :: "nat \<Rightarrow> 'a list \<Rightarrow> 'a list" where
  "del_at i xs = take i xs @ drop (Suc i) xs"

text \<open>
  The guard of the three index operations: \<^verbatim>\<open>0 <= index < len(self.bookmarks)\<close>.
  It looks at \<^verbatim>\<open>self.bookmarks\<close> only, so an access to a shorter
  \<^verbatim>\<open>self.original_bookmarks\<close> raises \<^verbatim>\<open>IndexError\<close> after the first list was changed.
\<close>

definition index_ok :: "store \<Rightarrow> int \<Rightarrow> bool" where
  "index_ok s index \<longleftrightarrow> 0 \<le> index \<and> index < int (length (bookmarks s))"

definition remove_bookmark :: "store \<Rightarrow> int \<Rightarrow> store outcome" where
  "remove_bookmark s index =
     (if index_ok s index then
        let i = nat index;
            s1 = save_state s;
            s2 = s1\<lparr>bookmarks := del_at i (bookmarks s1)\<rparr>
        in if i < length (original_bookmarks s2)
           then Returned (save_draft
                  (s2\<lparr>original_bookmarks := del_at i (original_bookmarks s2)\<rparr>))
           else Raised IndexError s2
      else Returned s)"

text \<open>
  One pair of assignments
  \<^verbatim>\<open>self.bookmarks[i][k] = v; self.original_bookmarks[i][k] = v\<close>, for \<open>i\<close> in range of
  the first list.
\<close>

definition write_both :: "(bookmark \<Rightarrow> bookmark) \<Rightarrow> nat \<Rightarrow> store \<Rightarrow> store outcome" where
  "write_both f i s =
     (let s1 = s\<lparr>bookmarks := (bookmarks s)[i := f (bookmarks s ! i)]\<rparr>
      in if i < length (original_bookmarks s1)
         then Returned (s1\<lparr>original_bookmarks :=
                 (original_bookmarks s1)[i := f (original_bookmarks s1 ! i)]\<rparr>)
         else Raised IndexError s1)"

definition update_bookmark ::
  "store \<Rightarrow> int \<Rightarrow> pystr option \<Rightarrow> int option \<Rightarrow> int option \<Rightarrow> store outcome" where
  "update_bookmark s index t p l =
     (if index_ok s index then
        let i = nat index;
            s1 = save_state s
        in bind_outcome
             (case t of None \<Rightarrow> Returned s1
              | Some v \<Rightarrow> write_both (\<lambda>b. b\<lparr>title := v\<rparr>) i s1) (\<lambda>s2.
           bind_outcome
             (case p of None \<Rightarrow> Returned s2
              | Some v \<Rightarrow> write_both (\<lambda>b. b\<lparr>page := Some v\<rparr>) i s2) (\<lambda>s3.
           bind_outcome
             (case l of None \<Rightarrow> Returned s3
              | Some v \<Rightarrow> write_both (\<lambda>b. b\<lparr>level := v\<rparr>) i s3) (\<lambda>s4.
           Returned (save_draft s4))))
      else Returned s)"

text \<open>\<^verbatim>\<open>xs[i], xs[j] = xs[j], xs[i]\<close> for indices in range.\<close>

definition swap :: "nat \<Rightarrow> nat \<Rightarrow> 'a list \<Rightarrow> 'a list" where
  "swap i j xs = xs[i := xs ! j, j := xs ! i]"

text \<open>
  The two swap statements of \<^verbatim>\<open>move_bookmark\<close>; the right-hand side of the second one
  reads both positions of \<^verbatim>\<open>self.original_bookmarks\<close> before anything is assigned.
\<close>

definition swap_both :: "nat \<Rightarrow> nat \<Rightarrow> store \<Rightarrow> store outcome" where
  "swap_both i j s =
     (let s1 = s\<lparr>bookmarks := swap i j (bookmarks s)\<rparr>
      in if i < length (original_bookmarks s1) \<and> j < length (original_bookmarks s1)
         then Returned (s1\<lparr>original_bookmarks := swap i j (original_bookmarks s1)\<rparr>)
         else Raised IndexError s1)"

definition move_bookmark :: "store \<Rightarrow> int \<Rightarrow> pystr \<Rightarrow> store outcome" where
  "move_bookmark s index direction =
     (if index_ok s index then
        let i = nat index;
            s1 = save_state s
        in if direction = ascii ''up'' \<and> index > 0 then
             bind_outcome (swap_both i (i - 1) s1) (\<lambda>s2. Returned (save_draft s2))
           else if direction = ascii ''down'' \<and> index < int (length (bookmarks s1)) - 1 then
             bind_outcome (swap_both i (i + 1) s1) (\<lambda>s2. Returned (save_draft s2))
           else Returned (save_draft s1)
      else Returned s)"

text \<open>A store with two entries, built by the operations themselves; used in examples.\<close>

definition ex_store :: store where
  "ex_store =
     add_bookmark (add_bookmark new_store (ascii ''A'') (Some 1) 0) (ascii ''B'') (Some 2) 1"

section \<open>Offset engine\<close>

text \<open>
  \<^verbatim>\<open>apply_offset\<close>: the loop appends one new entry per input entry, so it is a map.  A
  missing \<^verbatim>\<open>offset\<close> argument is replaced by \<^verbatim>\<open>self.offset\<close>.
\<close>

definition apply_offset :: "store \<Rightarrow> bookmark list \<Rightarrow> int option \<Rightarrow> bookmark list" where
  "apply_offset s bs off =
     (let k = (case off of None \<Rightarrow> offset s | Some v \<Rightarrow> v)
      in map (\<lambda>bookmark.
               case page bookmark of None \<Rightarrow> bookmark
               | Some p \<Rightarrow> bookmark\<lparr>page := Some (p + k)\<rparr>) bs)"

text \<open>
  The same loop on an object heap, to speak about mutation.  A dict object is a cell of
  the heap, a reference is its address, the allocated addresses are those below the
  length of the heap, and the argument \<^verbatim>\<open>bookmarks\<close> is a list of references.
  \<^verbatim>\<open>bookmark.copy()\<close> allocates a cell with the content of the copied one, and the
  assignment to \<^verbatim>\<open>new_bookmark['page']\<close> writes that new cell.  The list object passed
  in is only iterated over; the result is built in a fresh list.
\<close>

type_synonym ref = nat

type_synonym heap = "bookmark list"

definition dict_copy :: "heap \<Rightarrow> ref \<Rightarrow> heap \<times> ref" where
  "dict_copy h r = (h @ [h ! r], length h)"

definition set_page :: "heap \<Rightarrow> ref \<Rightarrow> int option \<Rightarrow> heap" where
  "set_page h r v = h[r := (h ! r)\<lparr>page := v\<rparr>]"

fun apply_offset_refs :: "int \<Rightarrow> heap \<Rightarrow> ref list \<Rightarrow> heap \<times> ref list" where
  "apply_offset_refs k h [] = (h, [])"
| "apply_offset_refs k h (r # rs) =
     (let (h1, new_bookmark) = dict_copy h r;
          h2 = (case page (h1 ! new_bookmark) of None \<Rightarrow> h1
                | Some p \<Rightarrow> set_page h1 new_bookmark (Some (p + k)));
          (h3, result_bookmarks) = apply_offset_refs k h2 rs
      in (h3, new_bookmark # result_bookmarks))"

text \<open>The entries a list of references denotes in a heap.\<close>

definition deref :: "heap \<Rightarrow> ref list \<Rightarrow> bookmark list" where
  "deref h rs = map (\<lambda>r. h ! r) rs"

section \<open>Batch update\<close>

text \<open>
  One iteration of the loop of \<^verbatim>\<open>batch_update_bookmarks\<close>.  Each of the three blocks
  changes \<^verbatim>\<open>self.bookmarks[index]\<close> first and then reads
  \<^verbatim>\<open>self.original_bookmarks[index]\<close>, which is \<open>write_both\<close>; the new level of both
  entries is computed from the level in \<^verbatim>\<open>self.bookmarks\<close>.
\<close>

definition batch_step ::
  "pystr option \<Rightarrow> int option \<Rightarrow> int option \<Rightarrow> store \<Rightarrow> int \<Rightarrow> store outcome" where
  "batch_step title_prefix page_offset level_offset s index =
     (if index_ok s index then
        let i = nat index
        in bind_outcome
             (case title_prefix of None \<Rightarrow> Returned s
              | Some pre \<Rightarrow> write_both (\<lambda>b. b\<lparr>title := pre @ title b\<rparr>) i s) (\<lambda>s2.
           bind_outcome
             (case page_offset of None \<Rightarrow> Returned s2
              | Some d \<Rightarrow>
                  write_both (\<lambda>b. case page b of None \<Rightarrow> b
                                   | Some p \<Rightarrow> b\<lparr>page := Some (p + d)\<rparr>) i s2) (\<lambda>s3.
           (case level_offset of None \<Rightarrow> Returned s3
            | Some d \<Rightarrow>
                (let new_level = level (bookmarks s3 ! i) + d
                 in write_both (\<lambda>b. b\<lparr>level := max 0 (min 3 new_level)\<rparr>) i s3))))
      else Returned s)"

fun batch_loop ::
  "pystr option \<Rightarrow> int option \<Rightarrow> int option \<Rightarrow> store \<Rightarrow> int list \<Rightarrow> store outcome" where
  "batch_loop tp po lo s [] = Returned s"
| "batch_loop tp po lo s (index # indices) =
     bind_outcome (batch_step tp po lo s index) (\<lambda>s'. batch_loop tp po lo s' indices)"

definition batch_update_bookmarks ::
  "store \<Rightarrow> int list \<Rightarrow> pystr option \<Rightarrow> int option \<Rightarrow> int option \<Rightarrow> store outcome" where
  "batch_update_bookmarks s indices title_prefix page_offset level_offset =
     bind_outcome (batch_loop title_prefix page_offset level_offset (save_state s) indices)
       (\<lambda>s'. Returned (save_draft s'))"

text \<open>
  For comparison with the code above, the description of a batch update by its effect,
  after the specification: ``prefixes the title, adds \<open>pageOffset\<close> to \<open>page\<close> if not
  null, adds \<open>levelOffset\<close> to \<open>level\<close> then clamps to \<open>[0,3]\<close>''.  \<open>batch_entry\<close> is
  that change on an entry of \<^verbatim>\<open>self.bookmarks\<close>, \<open>batch_entry_original\<close> the change on
  the entry of \<^verbatim>\<open>self.original_bookmarks\<close> beside it, whose new level is the one
  computed for the entry \<open>c\<close> of \<^verbatim>\<open>self.bookmarks\<close>.
\<close>

definition batch_entry :: "pystr option \<Rightarrow> int option \<Rightarrow> int option \<Rightarrow> bookmark \<Rightarrow> bookmark" where
  "batch_entry tp po lo c =
     c\<lparr>title := (case tp of None \<Rightarrow> title c | Some pre \<Rightarrow> pre @ title c),
       page := (case po of None \<Rightarrow> page c | Some d \<Rightarrow> map_option (\<lambda>p. p + d) (page c)),
       level := (case lo of None \<Rightarrow> level c | Some d \<Rightarrow> max 0 (min 3 (level c + d)))\<rparr>"

definition batch_entry_original ::
  "pystr option \<Rightarrow> int option \<Rightarrow> int option \<Rightarrow> bookmark \<Rightarrow> bookmark \<Rightarrow> bookmark" where
  "batch_entry_original tp po lo c b =
     b\<lparr>title := (case tp of None \<Rightarrow> title b | Some pre \<Rightarrow> pre @ title b),
       page := (case po of None \<Rightarrow> page b | Some d \<Rightarrow> map_option (\<lambda>p. p + d) (page b)),
       level := (case lo of None \<Rightarrow> level b | Some d \<Rightarrow> max 0 (min 3 (level c + d)))\<rparr>"

text \<open>
  The description of a whole batch on the pair of sequences: each valid index of the list,
  in order, rewrites the same position of both.  The theorems compare
  \<open>batch_update_bookmarks\<close> with it.
\<close>

fun batch_both ::
  "pystr option \<Rightarrow> int option \<Rightarrow> int option \<Rightarrow> bookmark list \<times> bookmark list \<Rightarrow> int list
     \<Rightarrow> bookmark list \<times> bookmark list" where
  "batch_both tp po lo (cur, orig) [] = (cur, orig)"
| "batch_both tp po lo (cur, orig) (index # indices) =
     (if 0 \<le> index \<and> index < int (length cur)
      then batch_both tp po lo
             (cur[nat index := batch_entry tp po lo (cur ! nat index)],
              orig[nat index := batch_entry_original tp po lo (cur ! nat index) (orig ! nat index)])
             indices
      else batch_both tp po lo (cur, orig) indices)"

text \<open>
  The description of an update on one entry, after the specification: the fields given
  are written, the others stay.
\<close>

definition update_entry :: "pystr option \<Rightarrow> int option \<Rightarrow> int option \<Rightarrow> bookmark \<Rightarrow> bookmark" where
  "update_entry t p l b =
     b\<lparr>title := (case t of None \<Rightarrow> title b | Some v \<Rightarrow> v),
       page := (case p of None \<Rightarrow> page b | Some v \<Rightarrow> Some v),
       level := (case l of None \<Rightarrow> level b | Some v \<Rightarrow> v)\<rparr>"

section \<open>Outline writer\<close>


















section \<open>TOC parser\<close>

text \<open>
  Character classes.  \<open>isspace\<close> is the set on which \<^verbatim>\<open>str.strip\<close> and the pattern
  \<^verbatim>\<open>\s\<close> agree in CPython.
\<close>

definition isspace :: "int \<Rightarrow> bool" where
  "isspace c \<longleftrightarrow>
     c \<in> set [9, 10, 11, 12, 13, 28, 29, 30, 31, 32, 133, 160, 5760] \<or>
     (8192 \<le> c \<and> c \<le> 8202) \<or>
     c \<in> set [8232, 8233, 8239, 8287, 12288]"

text \<open>
  The pattern \<^verbatim>\<open>\d\<close> on a \<^verbatim>\<open>str\<close> matches every Unicode decimal digit (category Nd),
  and \<^verbatim>\<open>int()\<close> reads each of them by its decimal value.  The decimal digits come in
  runs of ten consecutive code points, zero first; \<open>digit_zeros\<close> lists the zeros of
  the 66 runs of Unicode 14.0, the character database of CPython 3.11 (ASCII, Arabic-Indic,
  \<open>\<dots>\<close>, full-width at 65296, \<open>\<dots>\<close>).
\<close>

definition digit_zeros :: "int list" where
  "digit_zeros =
     [48, 1632, 1776, 1984, 2406, 2534, 2662, 2790, 2918, 3046, 3174, 3302, 3430, 3558,
      3664, 3792, 3872, 4160, 4240, 6112, 6160, 6470, 6608, 6784, 6800, 6992, 7088, 7232,
      7248, 42528, 43216, 43264, 43472, 43504, 43600, 44016, 65296, 66720, 68912, 69734,
      69872, 69942, 70096, 70384, 70736, 70864, 71248, 71360, 71472, 71904, 72016, 72784,
      73040, 73120, 92768, 92864, 93008, 120782, 120792, 120802, 120812, 120822, 123200,
      123632, 125264, 130032]"

definition digit_value :: "int \<Rightarrow> int option" where
  "digit_value c =
     (case find (\<lambda>z. z \<le> c \<and> c \<le> z + 9) digit_zeros of
        None \<Rightarrow> None
      | Some z \<Rightarrow> Some (c - z))"

definition isdigit :: "int \<Rightarrow> bool" where
  "isdigit c \<longleftrightarrow> digit_value c \<noteq> None"

definition lstrip :: "pystr \<Rightarrow> pystr" where
  "lstrip xs = dropWhile isspace xs"

definition rstrip :: "pystr \<Rightarrow> pystr" where
  "rstrip xs = rev (dropWhile isspace (rev xs))"

definition strip :: "pystr \<Rightarrow> pystr" where
  "strip xs = rstrip (lstrip xs)"

text \<open>\<^verbatim>\<open>s.split('\n')\<close>: never empty, one more element than there are newlines.\<close>

fun split_lines :: "pystr \<Rightarrow> pystr list" where
  "split_lines [] = [[]]"
| "split_lines (c # cs) =
     (if c = 10 then [] # split_lines cs
      else (case split_lines cs of l # ls \<Rightarrow> (c # l) # ls | [] \<Rightarrow> [[c]]))"

definition startswith :: "pystr \<Rightarrow> pystr \<Rightarrow> bool" where
  "startswith line p \<longleftrightarrow> take (length p) line = p"

text \<open>\<^verbatim>\<open>keyword in title\<close>.\<close>

definition contains :: "pystr \<Rightarrow> pystr \<Rightarrow> bool" where
  "contains keyword t \<longleftrightarrow>
     list_ex (\<lambda>i. take (length keyword) (drop i t) = keyword) [0..<Suc (length t)]"

text \<open>
  \<^verbatim>\<open>int(digits)\<close> for a non-empty run of decimal digits, which is what group 1 of the
  page pattern is.  The interpreter refuses a string of more than
  \<^verbatim>\<open>sys.int_info.default_max_str_digits\<close> digits, leading zeros counted, with a
  \<^verbatim>\<open>ValueError\<close>; 4300 is the default of CPython 3.11.
\<close>

definition max_str_digits :: int where
  "max_str_digits = 4300"

definition int_of_digits :: "pystr \<Rightarrow> py_error + int" where
  "int_of_digits ds =
     (if int (length ds) > max_str_digits then Inl ValueError
      else Inr (foldl (\<lambda>a c. 10 * a + (case digit_value c of None \<Rightarrow> 0 | Some d \<Rightarrow> d))
                  0 ds))"

text \<open>The marker glyphs \<^verbatim>\<open># * -\<close> and U+2022, 2605, 2606, 25B6, 25BA, 2192, 21D2.\<close>

definition prefixes :: "pystr list" where
  "prefixes = [[35], [42], [45], [8226], [9733], [9734], [9654], [9658], [8594], [8658]]"

text \<open>
  The \<^verbatim>\<open>for prefix in prefixes\<close> loop with its \<^verbatim>\<open>break\<close>: the first prefix the line
  starts with is cut off and the rest is stripped; \<open>None\<close> when no prefix matches.
\<close>

definition strip_one_prefix :: "pystr \<Rightarrow> pystr option" where
  "strip_one_prefix line =
     (case find (startswith line) prefixes of
        None \<Rightarrow> None
      | Some p \<Rightarrow> Some (strip (drop (length p) line)))"

text \<open>The \<^verbatim>\<open>while any(line.startswith(prefix) ...)\<close> loop around it.\<close>

function strip_prefixes :: "pystr \<Rightarrow> pystr" where
  "strip_prefixes line =
     (case strip_one_prefix line of None \<Rightarrow> line | Some line' \<Rightarrow> strip_prefixes line')"
  by pat_completeness auto
termination
proof (relation "measure length")
  show "wf (measure length)" by simp
next
  fix line line' :: pystr
  assume a: "strip_one_prefix line = Some line'"
  then obtain p where p: "find (startswith line) prefixes = Some p"
    and l: "line' = strip (drop (length p) line)"
    by (auto simp: strip_one_prefix_def split: option.splits)
  from p have "p \<in> set prefixes" "startswith line p"
    by (auto simp: find_Some_iff dest: nth_mem)
  then have "length p = 1" "line \<noteq> []"
    by (auto simp: prefixes_def startswith_def)
  moreover have "length (strip xs) \<le> length xs" for xs
  proof -
    have "length (rev (dropWhile isspace (rev (dropWhile isspace xs))))
            \<le> length (dropWhile isspace xs)"
      using length_dropWhile_le [of isspace "rev (dropWhile isspace xs)"] by simp
    also have "\<dots> \<le> length xs" by (rule length_dropWhile_le)
    finally show ?thesis by (simp add: strip_def rstrip_def lstrip_def)
  qed
  ultimately have "length line' < length line"
    using l by (metis One_nat_def diff_less length_drop length_greater_0_conv
        less_Suc0 not_less order.strict_trans1 le_less_trans)
  then show "(line', line) \<in> measure length" by simp
qed

text \<open>
  \<^verbatim>\<open>re.match(r'^(#{1,4})\s+(.+)', line)\<close> for a line without a newline, as every
  element of \<^verbatim>\<open>split('\n')\<close> is: the groups 1 and 2 of the match.  The greedy
  \<^verbatim>\<open>#{1,4}\<close> has to take all leading hashes, so there are between one and four; the
  greedy \<^verbatim>\<open>\s+\<close> takes all white space after them and gives its last character back
  only when nothing else is left for \<^verbatim>\<open>.+\<close>.
\<close>

definition markdown_match :: "pystr \<Rightarrow> (pystr \<times> pystr) option" where
  "markdown_match line =
     (let hashes = takeWhile (\<lambda>c. c = 35) line;
          rest = dropWhile (\<lambda>c. c = 35) line;
          ws = takeWhile isspace rest;
          body = dropWhile isspace rest
      in if 1 \<le> length hashes \<and> length hashes \<le> 4 \<and> ws \<noteq> [] then
           (if body \<noteq> [] then Some (hashes, body)
            else if 2 \<le> length ws then Some (hashes, [last ws])
            else None)
         else None)"

text \<open>
  \<^verbatim>\<open>re.search(r'(\d+)(?:\s*)$', line)\<close>: the leftmost position from which a non-empty
  run of digits followed by white space only reaches the end; the result is
  \<^verbatim>\<open>start()\<close> and \<^verbatim>\<open>group(1)\<close>.
\<close>

definition page_match_at :: "pystr \<Rightarrow> nat \<Rightarrow> bool" where
  "page_match_at line i \<longleftrightarrow>
     takeWhile isdigit (drop i line) \<noteq> [] \<and>
     list_all isspace (dropWhile isdigit (drop i line))"

definition page_match :: "pystr \<Rightarrow> (nat \<times> pystr) option" where
  "page_match line =
     (case find (page_match_at line) [0..<length line] of
        None \<Rightarrow> None
      | Some i \<Rightarrow> Some (i, takeWhile isdigit (drop i line)))"

text \<open>
  \<^verbatim>\<open>re.sub(r'\.{3,}|\s{2,}$', '', title)\<close>, scanning from the left: a run of three or
  more dots is dropped whole; two or more white-space characters that reach the end are
  dropped; any other character is kept.
\<close>

function remove_leaders :: "pystr \<Rightarrow> pystr" where
  "remove_leaders [] = []"
| "remove_leaders (c # cs) =
     (if 3 \<le> length (takeWhile (\<lambda>x. x = 46) (c # cs))
      then remove_leaders (dropWhile (\<lambda>x. x = 46) cs)
      else if 2 \<le> length (c # cs) \<and> list_all isspace (c # cs) then []
      else c # remove_leaders cs)"
  by pat_completeness auto
termination
  by (relation "measure length") (auto simp: length_dropWhile_le le_imp_less_Suc)

text \<open>
  \<^verbatim>\<open>re.search(r'^(\d+\.)*\d+', title)\<close>.  \<open>dotted_groups\<close> takes the groups
  \<^verbatim>\<open>\d+\.\<close> greedily and returns their text and the rest.  When digits follow, they
  end the match; otherwise the last group is given back and its digits end the match,
  which is then the text of the groups without the final dot.  The result is
  \<^verbatim>\<open>group(0)\<close>.
\<close>

function dotted_groups :: "pystr \<Rightarrow> pystr \<times> pystr" where
  "dotted_groups s =
     (let ds = takeWhile isdigit s;
          r = dropWhile isdigit s
      in if ds \<noteq> [] \<and> r \<noteq> [] \<and> hd r = 46
         then (let (g, r') = dotted_groups (tl r) in (ds @ [46] @ g, r'))
         else ([], s))"
  by pat_completeness auto
termination
proof (relation "measure length")
  show "wf (measure length)" by simp
next
  fix s ds r :: pystr
  assume "r = dropWhile isdigit s" "ds \<noteq> [] \<and> r \<noteq> [] \<and> hd r = 46"
  then have "length (tl r) < length r" "length r \<le> length s"
    by (simp_all add: length_dropWhile_le)
  then show "(tl r, s) \<in> measure length" by simp
qed

definition chapter_match :: "pystr \<Rightarrow> pystr option" where
  "chapter_match t =
     (let (g, r) = dotted_groups t;
          ds = takeWhile isdigit r
      in if ds \<noteq> [] then Some (g @ ds)
         else if g \<noteq> [] then Some (butlast g)
         else None)"

text \<open>
  \<^verbatim>\<open>re.search(r'^[...]+[...]', title)\<close> for two disjoint character classes: a
  non-empty run of the first class followed by a character of the second.
\<close>

definition class_run_match :: "int list \<Rightarrow> int list \<Rightarrow> pystr \<Rightarrow> bool" where
  "class_run_match cls stop t \<longleftrightarrow>
     takeWhile (\<lambda>c. c \<in> set cls) t \<noteq> [] \<and>
     (case dropWhile (\<lambda>c. c \<in> set cls) t of [] \<Rightarrow> False | c # _ \<Rightarrow> c \<in> set stop)"

definition chinese_numeral_match :: "pystr \<Rightarrow> bool" where
  "chinese_numeral_match t =
     class_run_match
       [19968, 20108, 19977, 22235, 20116, 20845, 19971, 20843, 20061, 21313, 30334,
        21315, 19975]
       [12289, 58] t"

definition roman_numeral_match :: "pystr \<Rightarrow> bool" where
  "roman_numeral_match t = class_run_match [73, 86, 88, 76, 67, 68, 77] [46, 12289, 58] t"

text \<open>The four keyword lists of method 6, in the order of the source.\<close>

definition front_matter_keywords :: "pystr list" where
  "front_matter_keywords =
     [[21069, 35328], [24207, 35328], [38468, 24405], [21442, 32771, 25991, 29486],
      [32034, 24341]]"

definition chapter_keywords :: "pystr list" where
  "chapter_keywords = [[31456, 33410], [31456], [31687]]"

definition section_keywords :: "pystr list" where
  "section_keywords = [[33410], [39033], [26465]]"

definition subsection_keywords :: "pystr list" where
  "subsection_keywords = [[23567, 33410], [23376, 39033], [23376, 26465]]"

text \<open>
  The pre-pass: the hash counts of the Markdown headings among the stripped non-empty
  lines, sorted without repetition, and the dict from each to its rank.
\<close>

definition markdown_levels :: "pystr list \<Rightarrow> int list" where
  "markdown_levels lines =
     concat (map (\<lambda>line. let line = strip line
                          in if line = [] then []
                             else (case markdown_match line of
                                     None \<Rightarrow> []
                                   | Some (hashes, body) \<Rightarrow> [int (length hashes)])) lines)"

definition level_mapping :: "pystr list \<Rightarrow> (int \<rightharpoonup> int)" where
  "level_mapping lines =
     (let sorted_levels = sort (remdups (markdown_levels lines))
      in map_of (zip sorted_levels (map int [0..<length sorted_levels])))"

text \<open>
  The body of the main loop for one stripped, non-empty line.  The only statement of the
  body that can raise is \<^verbatim>\<open>page_num = int(page_match.group(1))\<close>; it comes before the
  title and the level are computed.
\<close>

definition parse_line :: "(int \<rightharpoonup> int) \<Rightarrow> pystr \<Rightarrow> py_error + bookmark" where
  "parse_line mapping original_line =
     (let line = strip_prefixes original_line;
          pm = page_match line
      in case (case pm of None \<Rightarrow> Inr None
               | Some (start, ds) \<Rightarrow>
                   (case int_of_digits ds of Inl e \<Rightarrow> Inl e | Inr n \<Rightarrow> Inr (Some n))) of
           Inl e \<Rightarrow> Inl e
         | Inr page_num \<Rightarrow> Inr
     (let title0 = (case pm of None \<Rightarrow> line | Some (start, ds) \<Rightarrow> strip (take start line));
          title1 = strip (remove_leaders title0);
          level0 = (0::int);
          original_title_part =
            (case strip_one_prefix original_line of None \<Rightarrow> original_line | Some x \<Rightarrow> x);
          leading_spaces = length original_title_part - length (lstrip original_title_part);
          level1 = (if leading_spaces > 0 then min 3 (int leading_spaces div 2) else level0);
          level2 = (case chapter_match title1 of
                      None \<Rightarrow> level1
                    | Some m \<Rightarrow> max level1 (int (count_list m 46)));
          mm = markdown_match original_line;
          level3 = (case mm of
                      None \<Rightarrow> level2
                    | Some (hashes, body) \<Rightarrow>
                        (let original_level = int (length hashes)
                         in case mapping original_level of
                              None \<Rightarrow> original_level - 1
                            | Some l \<Rightarrow> l));
          title2 = (case mm of None \<Rightarrow> title1 | Some (hashes, body) \<Rightarrow> body);
          level4 = (if chinese_numeral_match title2 then max level3 0 else level3);
          level5 = (if roman_numeral_match title2 then max level4 0 else level4);
          level6 = (if list_ex (\<lambda>k. contains k title2) front_matter_keywords
                    then max level5 0 else level5);
          level7 = (if list_ex (\<lambda>k. contains k title2) chapter_keywords
                    then max level6 0 else level6);
          level8 = (if list_ex (\<lambda>k. contains k title2) section_keywords
                    then min (level7 + 1) 3 else level7);
          level9 = (if list_ex (\<lambda>k. contains k title2) subsection_keywords
                    then min (level8 + 2) 3 else level8)
      in \<lparr>title = title2, page = page_num, level = level9\<rparr>))"

text \<open>The main loop: the entries are appended in order until a line raises.\<close>

fun parse_lines :: "(int \<rightharpoonup> int) \<Rightarrow> pystr list \<Rightarrow> py_error + bookmark list" where
  "parse_lines mapping [] = Inr []"
| "parse_lines mapping (l # ls) =
     (case parse_line mapping l of
        Inl e \<Rightarrow> Inl e
      | Inr b \<Rightarrow> (case parse_lines mapping ls of Inl e \<Rightarrow> Inl e | Inr bs \<Rightarrow> Inr (b # bs)))"

text \<open>
  The list built by \<^verbatim>\<open>parse_toc_text\<close>, or the exception that ends the loop; it depends
  on the text only.
\<close>

definition toc_entries :: "pystr \<Rightarrow> py_error + bookmark list" where
  "toc_entries toc_text =
     (let lines = split_lines (strip toc_text);
          mapping = level_mapping lines
      in parse_lines mapping (filter (\<lambda>l. l \<noteq> []) (map strip lines)))"

text \<open>
  \<^verbatim>\<open>parse_toc_text\<close>: what the call gives (the list it returns, or the exception it
  raises) and the state it leaves.  It records an undo snapshot first; when the loop
  raises, nothing else has changed.  Otherwise it replaces
  \<^verbatim>\<open>self.original_bookmarks\<close> by a copy of the result and writes the draft;
  \<^verbatim>\<open>self.bookmarks\<close> is left to the caller.
\<close>

definition parse_toc_text :: "store \<Rightarrow> pystr \<Rightarrow> (py_error + bookmark list) \<times> store" where
  "parse_toc_text s toc_text =
     (let s1 = save_state s
      in case toc_entries toc_text of
           Inl e \<Rightarrow> (Inl e, s1)
         | Inr entries \<Rightarrow>
             (let s2 = s1\<lparr>original_bookmarks := entries\<rparr>
              in (Inr entries, save_draft s2)))"

section \<open>Basic facts\<close>

lemma save_state_fields [simp]:
  "bookmarks (save_state s) = bookmarks s"
  "original_bookmarks (save_state s) = original_bookmarks s"
  "offset (save_state s) = offset s"
  by (simp_all add: save_state_def)

lemma save_draft_fields [simp]:
  "bookmarks (save_draft s) = bookmarks s"
  "original_bookmarks (save_draft s) = original_bookmarks s"
  "offset (save_draft s) = offset s"
  "history (save_draft s) = history s"
  by (simp_all add: save_draft_def)

lemma length_deque_append: "length (deque_append n d x) \<le> n"
  by (simp add: deque_append_def Let_def)

lemma history_save_state_bound: "length (history (save_state s)) \<le> 5"
  by (simp add: save_state_def length_deque_append)

section \<open>Undo\<close>

lemma undo_history_length:
  "length (history (snd (undo s))) =
     (if length (history s) > 1 then length (history s) - 1 else length (history s))"
  by (simp add: undo_def Let_def)

lemma undo_times_history:
  "length (history (undo_times n s)) \<le> max 1 (length (history s) - n)"
proof (induction n)
  case 0
  then show ?case by simp
next
  case (Suc n)
  have "length (history (snd (undo (undo_times n s))))
          \<le> max 1 (length (history (undo_times n s)) - 1)"
    by (simp add: undo_history_length)
  with Suc show ?case by simp
qed

text \<open>
  Claim C8.  When the history holds at most one snapshot, \<^verbatim>\<open>undo\<close> returns \<open>False\<close> and
  the whole state (bookmarks, original bookmarks, offset, history, draft) is the one it
  was called in.  After at least as many calls as there are retained snapshots every
  further call is of this kind, and no more than five snapshots are ever retained.
\<close>

theorem undo_without_older_snapshot:
  "(length (history s) \<le> 1 \<longrightarrow> undo s = (False, s)) \<and>
   (length (history s) \<le> n \<longrightarrow>
      undo (undo_times n s) = (False, undo_times n s)) \<and>
   length (history (save_state s)) \<le> 5"
proof (intro conjI impI)
  assume "length (history s) \<le> 1"
  then show "undo s = (False, s)" by (simp add: undo_def)
next
  assume h: "length (history s) \<le> n"
  have "length (history (undo_times n s)) \<le> 1"
    using undo_times_history [of n s] h by simp
  then show "undo (undo_times n s) = (False, undo_times n s)"
    by (simp add: undo_def)
next
  show "length (history (save_state s)) \<le> 5" by (rule history_save_state_bound)
qed

theorem undo_without_older_snapshot_witness:
  "length (history (snd (undo ex_store))) \<le> 1 \<and>
   undo (snd (undo ex_store)) = (False, snd (undo ex_store)) \<and>
   length (history ex_store) \<le> 2 \<and>
   undo (undo_times 2 ex_store) = (False, undo_times 2 ex_store) \<and>
   bookmarks (undo_times 2 ex_store) = []"
  using undo_without_older_snapshot [of "snd (undo ex_store)" 0]
    undo_without_older_snapshot [of ex_store 2]
  by (simp add: ex_store_def new_store_def add_bookmark_def save_state_def save_draft_def
      deque_append_def undo_def Let_def numeral_2_eq_2)

section \<open>Index operations at the boundary and out of range\<close>

text \<open>
  Claim C9.  On a non-empty store \<^verbatim>\<open>move_bookmark(0, 'up')\<close> and
  \<^verbatim>\<open>move_bookmark(len - 1, 'down')\<close> return without raising; the state they leave is the
  one reached by \<^verbatim>\<open>save_state\<close> and \<^verbatim>\<open>save_draft\<close> alone, in which both sequences are
  what they were.
\<close>

theorem move_bookmark_boundary_noop:
  "bookmarks s \<noteq> [] \<Longrightarrow>
     move_bookmark s 0 (ascii ''up'') = Returned (save_draft (save_state s)) \<and>
     move_bookmark s (int (length (bookmarks s)) - 1) (ascii ''down'')
       = Returned (save_draft (save_state s)) \<and>
     bookmarks (save_draft (save_state s)) = bookmarks s \<and>
     original_bookmarks (save_draft (save_state s)) = original_bookmarks s"
  by (simp add: move_bookmark_def index_ok_def ascii_def Let_def)

theorem move_bookmark_boundary_noop_witness:
  "bookmarks ex_store \<noteq> [] \<and>
   move_bookmark ex_store 0 (ascii ''up'') = Returned (save_draft (save_state ex_store)) \<and>
   move_bookmark ex_store 1 (ascii ''down'') = Returned (save_draft (save_state ex_store)) \<and>
   bookmarks (save_draft (save_state ex_store)) = bookmarks ex_store"
  using move_bookmark_boundary_noop [of ex_store]
  by (simp add: ex_store_def new_store_def add_bookmark_def Let_def)

text \<open>
  Claim C10.  For an index outside \<open>[0, len(bookmarks))\<close>, \<^verbatim>\<open>remove_bookmark\<close>,
  \<^verbatim>\<open>update_bookmark\<close> and \<^verbatim>\<open>move_bookmark\<close> return without raising and the state is
  the one they were called in: sequences, offset, undo history and draft.
\<close>

theorem out_of_range_index_rejected:
  "\<not> (0 \<le> index \<and> index < int (length (bookmarks s))) \<Longrightarrow>
     remove_bookmark s index = Returned s \<and>
     update_bookmark s index t p l = Returned s \<and>
     move_bookmark s index direction = Returned s"
proof -
  assume "\<not> (0 \<le> index \<and> index < int (length (bookmarks s)))"
  then have "\<not> index_ok s index" by (simp add: index_ok_def)
  then show ?thesis
    by (simp add: remove_bookmark_def update_bookmark_def move_bookmark_def)
qed

theorem out_of_range_index_rejected_witness:
  "\<not> (0 \<le> (2::int) \<and> (2::int) < int (length (bookmarks ex_store))) \<and>
   remove_bookmark ex_store 2 = Returned ex_store \<and>
   update_bookmark ex_store 2 (Some (ascii ''C'')) (Some 7) (Some 1) = Returned ex_store \<and>
   move_bookmark ex_store 2 (ascii ''up'') = Returned ex_store \<and>
   remove_bookmark ex_store (- 1) = Returned ex_store"
  using out_of_range_index_rejected
          [of 2 ex_store "Some (ascii ''C'')" "Some 7" "Some 1" "ascii ''up''"]
    out_of_range_index_rejected [of "- 1" ex_store]
  by (simp add: ex_store_def new_store_def add_bookmark_def Let_def)

section \<open>Offset engine: round trip, null pages, no mutation\<close>

lemma apply_offset_round_trip:
  "apply_offset s (apply_offset s bs (Some k)) (Some (- k)) = bs"
  by (induction bs) (auto simp: apply_offset_def split: option.splits)

lemma apply_offset_null_page:
  "i < length bs \<Longrightarrow> page (bs ! i) = None \<Longrightarrow> apply_offset s bs off ! i = bs ! i"
  by (simp add: apply_offset_def Let_def)

lemma apply_offset_refs_props:
  "\<forall>r \<in> set rs. r < length h \<Longrightarrow> apply_offset_refs k h rs = (h', rs') \<Longrightarrow>
     length h \<le> length h' \<and> take (length h) h' = h \<and>
     (\<forall>r \<in> set rs'. length h \<le> r \<and> r < length h') \<and> distinct rs' \<and>
     deref h' rs' = apply_offset s (deref h rs) (Some k)"
proof (induction rs arbitrary: h h' rs')
  case Nil
  then show ?case by (simp add: deref_def apply_offset_def)
next
  case (Cons r rs)
  define h2 where "h2 = (case page ((h @ [h ! r]) ! length h) of None \<Rightarrow> h @ [h ! r]
                | Some p \<Rightarrow> set_page (h @ [h ! r]) (length h) (Some (p + k)))"
  obtain h3 res where rec: "apply_offset_refs k h2 rs = (h3, res)" by fastforce
  have out: "h' = h3" "rs' = length h # res"
    using Cons.prems(2) rec by (simp_all add: dict_copy_def h2_def Let_def)
  have len2: "length h2 = Suc (length h)"
    by (simp add: h2_def set_page_def split: option.splits)
  have take2: "take (length h) h2 = h"
    by (simp add: h2_def set_page_def split: option.splits)
  have new2: "h2 ! length h = (case page (h ! r) of None \<Rightarrow> h ! r
                | Some p \<Rightarrow> (h ! r)\<lparr>page := Some (p + k)\<rparr>)"
    by (simp add: h2_def set_page_def split: option.splits)
  have rs_ok: "\<forall>r \<in> set rs. r < length h2" using Cons.prems(1) len2 by auto
  from Cons.IH [OF rs_ok rec]
  have ih: "length h2 \<le> length h3" "take (length h2) h3 = h2"
    "\<forall>r \<in> set res. length h2 \<le> r \<and> r < length h3" "distinct res"
    "deref h3 res = apply_offset s (deref h2 rs) (Some k)" by simp_all
  have agree3: "\<And>a. a < length h2 \<Longrightarrow> h3 ! a = h2 ! a"
    using ih(2) by (metis nth_take)
  have agree2: "\<And>a. a < length h \<Longrightarrow> h2 ! a = h ! a"
    using take2 by (metis nth_take)
  have t: "take (length h) h3 = h"
  proof -
    have "take (length h) h3 = take (length h) (take (length h2) h3)"
      by (simp add: len2 min_def)
    then show ?thesis using ih(2) take2 by simp
  qed
  have d: "deref h2 rs = deref h rs"
    using Cons.prems(1) agree2 by (simp add: deref_def)
  have hd3: "h3 ! length h = h2 ! length h" using agree3 len2 by simp
  have tl3: "deref h3 res = apply_offset s (deref h rs) (Some k)"
    using ih(5) d by simp
  have "deref h3 (length h # res) = apply_offset s (deref h (r # rs)) (Some k)"
  proof -
    have "deref h3 (length h # res) = h3 ! length h # deref h3 res"
      by (simp add: deref_def)
    also have "\<dots> = h3 ! length h # apply_offset s (deref h rs) (Some k)"
      by (simp only: tl3)
    also have "\<dots> = apply_offset s (h ! r # deref h rs) (Some k)"
      using hd3 new2 by (simp add: apply_offset_def)
    finally show ?thesis by (simp add: deref_def)
  qed
  moreover have "\<forall>r \<in> set (length h # res). length h \<le> r \<and> r < length h3"
    using ih(1,3) len2 by auto
  moreover have "distinct (length h # res)" using ih(3,4) len2 by auto
  moreover have "length h \<le> length h3" using ih(1) len2 by simp
  ultimately show ?case using out t by simp
qed


text \<open>
  Claim C2.  Shifting by \<open>k\<close> and then by \<open>- k\<close> gives back the list that was passed in;
  an entry without a page comes out as it went in, whatever the offset (given or taken
  from the store); and on the object heap every cell that existed before the call holds
  afterwards what it held before, the returned references are all newly allocated, and
  the entries they denote are those computed by \<open>apply_offset\<close>.
\<close>

theorem apply_offset_inverse_null_pure:
  "apply_offset s (apply_offset s bs (Some k)) (Some (- k)) = bs \<and>
   (\<forall>i < length bs. page (bs ! i) = None \<longrightarrow> apply_offset s bs off ! i = bs ! i) \<and>
   ((\<forall>r \<in> set rs. r < length h) \<longrightarrow>
      take (length h) (fst (apply_offset_refs k h rs)) = h \<and>
      (\<forall>r \<in> set (snd (apply_offset_refs k h rs)).
          length h \<le> r \<and> r < length (fst (apply_offset_refs k h rs))) \<and>
      deref (fst (apply_offset_refs k h rs)) (snd (apply_offset_refs k h rs))
        = apply_offset s (deref h rs) (Some k))"
proof (intro conjI allI impI)
  show "apply_offset s (apply_offset s bs (Some k)) (Some (- k)) = bs"
    by (rule apply_offset_round_trip)
next
  fix i assume "i < length bs" "page (bs ! i) = None"
  then show "apply_offset s bs off ! i = bs ! i" by (rule apply_offset_null_page)
next
  assume ok: "\<forall>r \<in> set rs. r < length h"
  obtain h' rs' where run: "apply_offset_refs k h rs = (h', rs')" by fastforce
  from apply_offset_refs_props [OF ok run, of s]
  show "take (length h) (fst (apply_offset_refs k h rs)) = h"
    and "\<forall>r \<in> set (snd (apply_offset_refs k h rs)).
          length h \<le> r \<and> r < length (fst (apply_offset_refs k h rs))"
    and "deref (fst (apply_offset_refs k h rs)) (snd (apply_offset_refs k h rs))
        = apply_offset s (deref h rs) (Some k)"
    by (simp_all add: run)
qed

theorem apply_offset_inverse_null_pure_witness:
  "apply_offset new_store (apply_offset new_store (bookmarks ex_store) (Some 7)) (Some (- 7))
     = bookmarks ex_store \<and>
   apply_offset new_store (bookmarks ex_store) (Some 7)
     = [\<lparr>title = ascii ''A'', page = Some 8, level = 0\<rparr>,
        \<lparr>title = ascii ''B'', page = Some 9, level = 1\<rparr>] \<and>
   (0::nat) < length [\<lparr>title = ascii ''C'', page = None, level = 2\<rparr>] \<and>
   page ([\<lparr>title = ascii ''C'', page = None, level = 2\<rparr>] ! 0) = None \<and>
   apply_offset new_store [\<lparr>title = ascii ''C'', page = None, level = 2\<rparr>] (Some 7) ! 0
     = \<lparr>title = ascii ''C'', page = None, level = 2\<rparr> \<and>
   (1::nat) < length (bookmarks ex_store) \<and>
   take 2 (fst (apply_offset_refs 7 (bookmarks ex_store) [1, 0])) = bookmarks ex_store \<and>
   snd (apply_offset_refs 7 (bookmarks ex_store) [1, 0]) = [2, 3]"
  using apply_offset_inverse_null_pure
          [where s = new_store and bs = "bookmarks ex_store" and k = 7 and off = "Some 7"
             and rs = "[1, 0]" and h = "bookmarks ex_store"]
    apply_offset_inverse_null_pure
          [where s = new_store and bs = "[\<lparr>title = ascii ''C'', page = None, level = 2\<rparr>]"
             and k = 7 and off = "Some 7" and rs = "[]" and h = "[]"]
  by (simp add: ex_store_def new_store_def add_bookmark_def Let_def apply_offset_def
      dict_copy_def set_page_def)

section \<open>Edit operations keep the two sequences aligned\<close>

lemma batch_step_invalid:
  "\<not> index_ok s index \<Longrightarrow> batch_step tp po lo s index = Returned s"
  by (simp add: batch_step_def)

lemma batch_entry_sel [simp]:
  "title (batch_entry tp po lo c) = (case tp of None \<Rightarrow> title c | Some pre \<Rightarrow> pre @ title c)"
  "page (batch_entry tp po lo c) = (case po of None \<Rightarrow> page c | Some d \<Rightarrow> map_option (\<lambda>p. p + d) (page c))"
  "level (batch_entry tp po lo c) = (case lo of None \<Rightarrow> level c | Some d \<Rightarrow> max 0 (min 3 (level c + d)))"
  by (simp_all add: batch_entry_def)

lemma batch_entry_original_sel [simp]:
  "title (batch_entry_original tp po lo c b) = (case tp of None \<Rightarrow> title b | Some pre \<Rightarrow> pre @ title b)"
  "page (batch_entry_original tp po lo c b) = (case po of None \<Rightarrow> page b | Some d \<Rightarrow> map_option (\<lambda>p. p + d) (page b))"
  "level (batch_entry_original tp po lo c b) = (case lo of None \<Rightarrow> level b | Some d \<Rightarrow> max 0 (min 3 (level c + d)))"
  by (simp_all add: batch_entry_original_def)

lemma shift_page_update:
  "(case page b of None \<Rightarrow> b | Some p \<Rightarrow> b\<lparr>page := Some (p + d)\<rparr>)
     = b\<lparr>page := map_option (\<lambda>p. p + d) (page b)\<rparr>"
  by (cases "page b") simp_all

lemma batch_step_valid:
  assumes eq: "length (bookmarks s) = length (original_bookmarks s)"
    and ok: "index_ok s index"
  shows "batch_step tp po lo s index =
           Returned (s\<lparr>bookmarks := (bookmarks s)[nat index := batch_entry tp po lo (bookmarks s ! nat index)],
                       original_bookmarks := (original_bookmarks s)[nat index :=
                          batch_entry_original tp po lo (bookmarks s ! nat index) (original_bookmarks s ! nat index)]\<rparr>)"
proof -
  have i: "nat index < length (bookmarks s)" "nat index < length (original_bookmarks s)"
    using ok eq by (auto simp: index_ok_def)
  show ?thesis
    using ok i
    by (cases tp; cases po; cases lo)
       (simp_all add: batch_step_def write_both_def Let_def batch_entry_def
          batch_entry_original_def shift_page_update)
qed


lemma batch_loop_aligned:
  "length (bookmarks s) = length (original_bookmarks s) \<Longrightarrow>
   batch_loop tp po lo s indices =
     Returned (s\<lparr>bookmarks := fst (batch_both tp po lo (bookmarks s, original_bookmarks s) indices),
                 original_bookmarks := snd (batch_both tp po lo (bookmarks s, original_bookmarks s) indices)\<rparr>)"
proof (induction indices arbitrary: s)
  case Nil
  then show ?case by simp
next
  case (Cons index indices)
  show ?case
  proof (cases "index_ok s index")
    case False
    then have "\<not> (0 \<le> index \<and> index < int (length (bookmarks s)))"
      by (simp add: index_ok_def)
    then have "batch_both tp po lo (bookmarks s, original_bookmarks s) (index # indices)
                 = batch_both tp po lo (bookmarks s, original_bookmarks s) indices"
      by (simp only: batch_both.simps if_False)
    then show ?thesis
      using False Cons.IH [OF Cons.prems] by (simp add: batch_step_invalid)
  next
    case True
    let ?s1 = "s\<lparr>bookmarks := (bookmarks s)[nat index := batch_entry tp po lo (bookmarks s ! nat index)],
                   original_bookmarks := (original_bookmarks s)[nat index :=
                     batch_entry_original tp po lo (bookmarks s ! nat index) (original_bookmarks s ! nat index)]\<rparr>"
    have eq1: "length (bookmarks ?s1) = length (original_bookmarks ?s1)"
      using Cons.prems by simp
    show ?thesis
      using True Cons.IH [OF eq1] batch_step_valid [OF Cons.prems True, of tp po lo]
      by (simp add: index_ok_def)
  qed
qed

lemma batch_both_length:
  "length (fst (batch_both tp po lo (cur, orig) indices)) = length cur \<and>
   length (snd (batch_both tp po lo (cur, orig) indices)) = length orig"
  by (induction indices arbitrary: cur orig) simp_all

lemma concat_replicate_commute:
  "concat (replicate k pre) @ pre = pre @ concat (replicate k pre)"
  by (induction k) simp_all

lemma batch_both_untouched:
  "j < length cur \<Longrightarrow> length cur = length orig \<Longrightarrow> int j \<notin> set indices \<Longrightarrow>
   fst (batch_both tp po lo (cur, orig) indices) ! j = cur ! j \<and>
   snd (batch_both tp po lo (cur, orig) indices) ! j = orig ! j"
proof (induction indices arbitrary: cur orig)
  case Nil
  then show ?case by simp
next
  case (Cons index indices)
  then have ne: "index \<noteq> int j" by auto
  show ?case
  proof (cases "0 \<le> index \<and> index < int (length cur)")
    case False
    then have "batch_both tp po lo (cur, orig) (index # indices)
                 = batch_both tp po lo (cur, orig) indices"
      by (simp only: batch_both.simps if_False)
    then show ?thesis using Cons by simp
  next
    case True
    then have nj: "nat index \<noteq> j" using ne by auto
    have rest: "int j \<notin> set indices" using Cons.prems by simp
    show ?thesis
      using True nj Cons.prems(1,2) rest
        Cons.IH [of "cur[nat index := batch_entry tp po lo (cur ! nat index)]"
          "orig[nat index := batch_entry_original tp po lo (cur ! nat index) (orig ! nat index)]"]
      by simp
  qed
qed

lemma batch_both_title:
  "j < length cur \<Longrightarrow> length cur = length orig \<Longrightarrow>
   title (fst (batch_both (Some pre) po lo (cur, orig) indices) ! j)
     = concat (replicate (count_list indices (int j)) pre) @ title (cur ! j) \<and>
   title (snd (batch_both (Some pre) po lo (cur, orig) indices) ! j)
     = concat (replicate (count_list indices (int j)) pre) @ title (orig ! j)"
proof (induction indices arbitrary: cur orig)
  case Nil
  then show ?case by simp
next
  case (Cons index indices)
  let ?cur = "cur[nat index := batch_entry (Some pre) po lo (cur ! nat index)]"
  let ?orig = "orig[nat index := batch_entry_original (Some pre) po lo (cur ! nat index) (orig ! nat index)]"
  show ?case
  proof (cases "0 \<le> index \<and> index < int (length cur)")
    case False
    then have "index \<noteq> int j" using Cons.prems by auto
    moreover have "batch_both (Some pre) po lo (cur, orig) (index # indices)
                 = batch_both (Some pre) po lo (cur, orig) indices"
      using False by (simp only: batch_both.simps if_False)
    ultimately show ?thesis using Cons by simp
  next
    case True
    have ih: "title (fst (batch_both (Some pre) po lo (?cur, ?orig) indices) ! j)
     = concat (replicate (count_list indices (int j)) pre) @ title (?cur ! j) \<and>
   title (snd (batch_both (Some pre) po lo (?cur, ?orig) indices) ! j)
     = concat (replicate (count_list indices (int j)) pre) @ title (?orig ! j)"
      using Cons.IH [of ?cur ?orig] Cons.prems by simp
    show ?thesis
    proof (cases "index = int j")
      case True
      then show ?thesis using ih Cons.prems
        by (simp add: concat_replicate_commute)
    next
      case False
      then have "nat index \<noteq> j" using True by auto
      then show ?thesis using ih True False by simp
    qed
  qed
qed


lemma batch_both_skip:
  "\<not> (0 \<le> index \<and> index < int (length cur)) \<Longrightarrow>
   batch_both tp po lo (cur, orig) (index # indices) = batch_both tp po lo (cur, orig) indices"
  by (simp only: batch_both.simps if_False)

lemma batch_both_page:
  "j < length cur \<Longrightarrow> length cur = length orig \<Longrightarrow>
   page (fst (batch_both tp (Some d) lo (cur, orig) indices) ! j)
     = map_option (\<lambda>p. p + int (count_list indices (int j)) * d) (page (cur ! j)) \<and>
   page (snd (batch_both tp (Some d) lo (cur, orig) indices) ! j)
     = map_option (\<lambda>p. p + int (count_list indices (int j)) * d) (page (orig ! j))"
proof (induction indices arbitrary: cur orig)
  case Nil
  then show ?case by (simp add: option.map_ident)
next
  case (Cons index indices)
  let ?cur = "cur[nat index := batch_entry tp (Some d) lo (cur ! nat index)]"
  let ?orig = "orig[nat index := batch_entry_original tp (Some d) lo (cur ! nat index) (orig ! nat index)]"
  show ?case
  proof (cases "0 \<le> index \<and> index < int (length cur)")
    case False
    then have "index \<noteq> int j" using Cons.prems by auto
    then show ?thesis using batch_both_skip [OF False] Cons by simp
  next
    case True
    have ih: "page (fst (batch_both tp (Some d) lo (?cur, ?orig) indices) ! j)
     = map_option (\<lambda>p. p + int (count_list indices (int j)) * d) (page (?cur ! j)) \<and>
   page (snd (batch_both tp (Some d) lo (?cur, ?orig) indices) ! j)
     = map_option (\<lambda>p. p + int (count_list indices (int j)) * d) (page (?orig ! j))"
      using Cons.IH [of ?cur ?orig] Cons.prems by simp
    show ?thesis
    proof (cases "index = int j")
      case True
      then show ?thesis using ih Cons.prems
        by (simp add: option.map_comp comp_def algebra_simps)
    next
      case False
      then have "nat index \<noteq> j" using True by auto
      then show ?thesis using ih True False by simp
    qed
  qed
qed

lemma batch_both_level:
  "j < length cur \<Longrightarrow> length cur = length orig \<Longrightarrow> int j \<in> set indices \<Longrightarrow>
   level (snd (batch_both tp po (Some d) (cur, orig) indices) ! j)
     = level (fst (batch_both tp po (Some d) (cur, orig) indices) ! j) \<and>
   0 \<le> level (fst (batch_both tp po (Some d) (cur, orig) indices) ! j) \<and>
   level (fst (batch_both tp po (Some d) (cur, orig) indices) ! j) \<le> 3"
proof (induction indices arbitrary: cur orig)
  case Nil
  then show ?case by simp
next
  case (Cons index indices)
  let ?cur = "cur[nat index := batch_entry tp po (Some d) (cur ! nat index)]"
  let ?orig = "orig[nat index := batch_entry_original tp po (Some d) (cur ! nat index) (orig ! nat index)]"
  show ?case
  proof (cases "0 \<le> index \<and> index < int (length cur)")
    case False
    then have "index \<noteq> int j" using Cons.prems by auto
    then show ?thesis using batch_both_skip [OF False] Cons by simp
  next
    case True
    have len: "j < length ?cur" "length ?cur = length ?orig" using Cons.prems by simp_all
    show ?thesis
    proof (cases "int j \<in> set indices")
      case True
      from Cons.IH [OF len True] show ?thesis using \<open>0 \<le> index \<and> index < int (length cur)\<close> by simp
    next
      case False
      then have here: "index = int j" using Cons.prems by simp
      from batch_both_untouched [OF len False, of tp po "Some d"]
      show ?thesis using here True Cons.prems by simp
    qed
  qed
qed

lemma add_bookmark_aligned:
  "bookmarks (add_bookmark s t p l) = bookmarks s @ [\<lparr>title = t, page = p, level = l\<rparr>] \<and>
   original_bookmarks (add_bookmark s t p l)
     = original_bookmarks s @ [\<lparr>title = t, page = p, level = l\<rparr>]"
  by (simp add: add_bookmark_def Let_def)

lemma remove_bookmark_aligned:
  assumes eq: "length (bookmarks s) = length (original_bookmarks s)" and ok: "index_ok s index"
  shows "\<exists>s'. remove_bookmark s index = Returned s' \<and>
           bookmarks s' = del_at (nat index) (bookmarks s) \<and>
           original_bookmarks s' = del_at (nat index) (original_bookmarks s) \<and>
           length (bookmarks s') = length (original_bookmarks s')"
proof -
  have i: "nat index < length (original_bookmarks s)"
    using ok eq by (auto simp: index_ok_def)
  show ?thesis using ok i eq by (simp add: remove_bookmark_def Let_def del_at_def)
qed

lemma update_bookmark_aligned:
  assumes eq: "length (bookmarks s) = length (original_bookmarks s)" and ok: "index_ok s index"
  shows "\<exists>s'. update_bookmark s index t p l = Returned s' \<and>
           bookmarks s' = (bookmarks s)[nat index := update_entry t p l (bookmarks s ! nat index)] \<and>
           original_bookmarks s' = (original_bookmarks s)[nat index :=
              update_entry t p l (original_bookmarks s ! nat index)]"
proof -
  have i: "nat index < length (bookmarks s)" "nat index < length (original_bookmarks s)"
    using ok eq by (auto simp: index_ok_def)
  show ?thesis
    using ok i
    by (cases t; cases p; cases l)
       (simp_all add: update_bookmark_def write_both_def Let_def update_entry_def)
qed

lemma ascii_down_not_up: "ascii ''down'' \<noteq> ascii ''up''"
  by (simp add: ascii_def)

lemma swap_same: "swap i i xs = xs"
  by (simp add: swap_def)

lemma move_bookmark_aligned:
  assumes eq: "length (bookmarks s) = length (original_bookmarks s)" and ok: "index_ok s index"
  shows "\<exists>s'. move_bookmark s index direction = Returned s' \<and>
     (let i = nat index;
          j = (if direction = ascii ''up'' \<and> 0 < index then i - 1
               else if direction = ascii ''down'' \<and> index < int (length (bookmarks s)) - 1
               then i + 1 else i)
      in bookmarks s' = swap i j (bookmarks s) \<and>
         original_bookmarks s' = swap i j (original_bookmarks s))"
proof -
  have i: "nat index < length (bookmarks s)" "nat index < length (original_bookmarks s)"
    using ok eq by (auto simp: index_ok_def)
  have up: "nat index - 1 < length (original_bookmarks s)" using i by simp
  have down: "index < int (length (bookmarks s)) - 1 \<Longrightarrow> nat index + 1 < length (original_bookmarks s)"
    using eq ok unfolding index_ok_def by linarith
  define U where "U \<longleftrightarrow> direction = ascii ''up'' \<and> 0 < index"
  define D where "D \<longleftrightarrow> direction = ascii ''down'' \<and> index < int (length (bookmarks s)) - 1"
  have mv: "move_bookmark s index direction =
      (if U then bind_outcome (swap_both (nat index) (nat index - 1) (save_state s))
                   (\<lambda>s2. Returned (save_draft s2))
       else if D then bind_outcome (swap_both (nat index) (nat index + 1) (save_state s))
                   (\<lambda>s2. Returned (save_draft s2))
       else Returned (save_draft (save_state s)))"
    using ok by (simp add: move_bookmark_def Let_def U_def D_def)
  have "\<exists>s'. move_bookmark s index direction = Returned s' \<and>
      bookmarks s' = swap (nat index)
          (if U then nat index - 1 else if D then nat index + 1 else nat index) (bookmarks s) \<and>
      original_bookmarks s' = swap (nat index)
          (if U then nat index - 1 else if D then nat index + 1 else nat index)
          (original_bookmarks s)"
  proof (cases U)
    case True
    then show ?thesis using mv i up by (simp add: swap_both_def Let_def)
  next
    case nU: False
    show ?thesis
    proof (cases D)
      case True
      then have "nat index + 1 < length (original_bookmarks s)" using down by (simp add: D_def)
      then show ?thesis using mv i nU True by (simp add: swap_both_def Let_def)
    next
      case False
      then show ?thesis using mv nU by (simp add: swap_same)
    qed
  qed
  then show ?thesis unfolding U_def D_def Let_def .
qed

lemma batch_update_aligned:
  "length (bookmarks s) = length (original_bookmarks s) \<Longrightarrow>
   \<exists>s'. batch_update_bookmarks s indices tp po lo = Returned s' \<and>
     bookmarks s' = fst (batch_both tp po lo (bookmarks s, original_bookmarks s) indices) \<and>
     original_bookmarks s' = snd (batch_both tp po lo (bookmarks s, original_bookmarks s) indices)"
  using batch_loop_aligned [of "save_state s" tp po lo indices]
  by (simp add: batch_update_bookmarks_def)


text \<open>
  Claim C1.  In a store whose two sequences have the same length, each edit operation
  returns without raising and changes both sequences alike: \<^verbatim>\<open>add_bookmark\<close> appends
  the same entry to both; for an index in range \<^verbatim>\<open>remove_bookmark\<close> deletes that
  position in both, \<^verbatim>\<open>update_bookmark\<close> writes the given fields at that position in
  both, and \<^verbatim>\<open>move_bookmark\<close> swaps the same two positions in both;
  \<^verbatim>\<open>batch_update_bookmarks\<close> keeps both lengths, leaves every position not listed as it
  was, puts the same number of copies of the prefix before both titles, adds the same
  amount to both non-null pages and writes one and the same level into both entries.
  In every case the two sequences have equal length afterwards.
\<close>

theorem edit_operations_keep_sequences_aligned:
  assumes eq: "length (bookmarks s) = length (original_bookmarks s)"
  shows
   "(bookmarks (add_bookmark s t p l) = bookmarks s @ [\<lparr>title = t, page = p, level = l\<rparr>] \<and>
     original_bookmarks (add_bookmark s t p l)
       = original_bookmarks s @ [\<lparr>title = t, page = p, level = l\<rparr>]) \<and>
    (0 \<le> index \<and> index < int (length (bookmarks s)) \<longrightarrow>
       (\<exists>s'. remove_bookmark s index = Returned s' \<and>
          bookmarks s' = del_at (nat index) (bookmarks s) \<and>
          original_bookmarks s' = del_at (nat index) (original_bookmarks s) \<and>
          length (bookmarks s') = length (original_bookmarks s')) \<and>
       (\<exists>s'. update_bookmark s index ut up ul = Returned s' \<and>
          bookmarks s' = (bookmarks s)[nat index := update_entry ut up ul (bookmarks s ! nat index)] \<and>
          original_bookmarks s' = (original_bookmarks s)[nat index :=
             update_entry ut up ul (original_bookmarks s ! nat index)] \<and>
          length (bookmarks s') = length (original_bookmarks s')) \<and>
       (\<exists>s'. move_bookmark s index direction = Returned s' \<and>
          (let i = nat index;
               j = (if direction = ascii ''up'' \<and> 0 < index then i - 1
                    else if direction = ascii ''down'' \<and> index < int (length (bookmarks s)) - 1
                    then i + 1 else i)
           in bookmarks s' = swap i j (bookmarks s) \<and>
              original_bookmarks s' = swap i j (original_bookmarks s)) \<and>
          length (bookmarks s') = length (original_bookmarks s'))) \<and>
    (\<exists>s'. batch_update_bookmarks s indices tp po lo = Returned s' \<and>
       (bookmarks s', original_bookmarks s')
          = batch_both tp po lo (bookmarks s, original_bookmarks s) indices \<and>
       length (bookmarks s') = length (bookmarks s) \<and>
       length (original_bookmarks s') = length (bookmarks s') \<and>
       (\<forall>j < length (bookmarks s).
          (int j \<notin> set indices \<longrightarrow>
             bookmarks s' ! j = bookmarks s ! j \<and>
             original_bookmarks s' ! j = original_bookmarks s ! j) \<and>
          (\<forall>pre. tp = Some pre \<longrightarrow>
             title (bookmarks s' ! j)
               = concat (replicate (count_list indices (int j)) pre) @ title (bookmarks s ! j) \<and>
             title (original_bookmarks s' ! j)
               = concat (replicate (count_list indices (int j)) pre)
                   @ title (original_bookmarks s ! j)) \<and>
          (\<forall>d. po = Some d \<longrightarrow>
             page (bookmarks s' ! j)
               = map_option (\<lambda>p. p + int (count_list indices (int j)) * d)
                   (page (bookmarks s ! j)) \<and>
             page (original_bookmarks s' ! j)
               = map_option (\<lambda>p. p + int (count_list indices (int j)) * d)
                   (page (original_bookmarks s ! j))) \<and>
          (\<forall>d. lo = Some d \<longrightarrow> int j \<in> set indices \<longrightarrow>
             level (original_bookmarks s' ! j) = level (bookmarks s' ! j))))"
proof (intro conjI impI)
  show "bookmarks (add_bookmark s t p l) = bookmarks s @ [\<lparr>title = t, page = p, level = l\<rparr>]"
    and "original_bookmarks (add_bookmark s t p l)
       = original_bookmarks s @ [\<lparr>title = t, page = p, level = l\<rparr>]"
    using add_bookmark_aligned by simp_all
next
  assume "0 \<le> index \<and> index < int (length (bookmarks s))"
  then have ok: "index_ok s index" by (simp add: index_ok_def)
  show "\<exists>s'. remove_bookmark s index = Returned s' \<and>
          bookmarks s' = del_at (nat index) (bookmarks s) \<and>
          original_bookmarks s' = del_at (nat index) (original_bookmarks s) \<and>
          length (bookmarks s') = length (original_bookmarks s')"
    by (rule remove_bookmark_aligned [OF eq ok])
next
  assume "0 \<le> index \<and> index < int (length (bookmarks s))"
  then have ok: "index_ok s index" by (simp add: index_ok_def)
  from update_bookmark_aligned [OF eq ok, of ut up ul]
  show "\<exists>s'. update_bookmark s index ut up ul = Returned s' \<and>
          bookmarks s' = (bookmarks s)[nat index := update_entry ut up ul (bookmarks s ! nat index)] \<and>
          original_bookmarks s' = (original_bookmarks s)[nat index :=
             update_entry ut up ul (original_bookmarks s ! nat index)] \<and>
          length (bookmarks s') = length (original_bookmarks s')"
    using eq by auto
next
  assume "0 \<le> index \<and> index < int (length (bookmarks s))"
  then have ok: "index_ok s index" by (simp add: index_ok_def)
  from move_bookmark_aligned [OF eq ok, of direction]
  obtain s' where mv: "move_bookmark s index direction = Returned s'"
    and sw: "let i = nat index;
               j = (if direction = ascii ''up'' \<and> 0 < index then i - 1
                    else if direction = ascii ''down'' \<and> index < int (length (bookmarks s)) - 1
                    then i + 1 else i)
           in bookmarks s' = swap i j (bookmarks s) \<and>
              original_bookmarks s' = swap i j (original_bookmarks s)"
    by blast
  have "length (bookmarks s') = length (original_bookmarks s')"
    using sw eq by (simp add: Let_def swap_def split: if_splits)
  with mv sw
  show "\<exists>s'. move_bookmark s index direction = Returned s' \<and>
          (let i = nat index;
               j = (if direction = ascii ''up'' \<and> 0 < index then i - 1
                    else if direction = ascii ''down'' \<and> index < int (length (bookmarks s)) - 1
                    then i + 1 else i)
           in bookmarks s' = swap i j (bookmarks s) \<and>
              original_bookmarks s' = swap i j (original_bookmarks s)) \<and>
          length (bookmarks s') = length (original_bookmarks s')"
    by blast
next
  let ?r = "batch_both tp po lo (bookmarks s, original_bookmarks s) indices"
  from batch_update_aligned [OF eq, of indices tp po lo]
  obtain s' where run: "batch_update_bookmarks s indices tp po lo = Returned s'"
    and c: "bookmarks s' = fst ?r" and o: "original_bookmarks s' = snd ?r"
    by blast
  have len: "length (fst ?r) = length (bookmarks s)" "length (snd ?r) = length (original_bookmarks s)"
    using batch_both_length [of tp po lo "bookmarks s" "original_bookmarks s" indices] by simp_all
  have entries: "\<forall>j < length (bookmarks s).
          (int j \<notin> set indices \<longrightarrow>
             fst ?r ! j = bookmarks s ! j \<and> snd ?r ! j = original_bookmarks s ! j) \<and>
          (\<forall>pre. tp = Some pre \<longrightarrow>
             title (fst ?r ! j)
               = concat (replicate (count_list indices (int j)) pre) @ title (bookmarks s ! j) \<and>
             title (snd ?r ! j)
               = concat (replicate (count_list indices (int j)) pre)
                   @ title (original_bookmarks s ! j)) \<and>
          (\<forall>d. po = Some d \<longrightarrow>
             page (fst ?r ! j)
               = map_option (\<lambda>p. p + int (count_list indices (int j)) * d)
                   (page (bookmarks s ! j)) \<and>
             page (snd ?r ! j)
               = map_option (\<lambda>p. p + int (count_list indices (int j)) * d)
                   (page (original_bookmarks s ! j))) \<and>
          (\<forall>d. lo = Some d \<longrightarrow> int j \<in> set indices \<longrightarrow>
             level (snd ?r ! j) = level (fst ?r ! j))"
    using batch_both_untouched [OF _ eq] batch_both_title [OF _ eq] batch_both_page [OF _ eq]
      batch_both_level [OF _ eq]
    by blast
  show "\<exists>s'. batch_update_bookmarks s indices tp po lo = Returned s' \<and>
       (bookmarks s', original_bookmarks s')
          = batch_both tp po lo (bookmarks s, original_bookmarks s) indices \<and>
       length (bookmarks s') = length (bookmarks s) \<and>
       length (original_bookmarks s') = length (bookmarks s') \<and>
       (\<forall>j < length (bookmarks s).
          (int j \<notin> set indices \<longrightarrow>
             bookmarks s' ! j = bookmarks s ! j \<and>
             original_bookmarks s' ! j = original_bookmarks s ! j) \<and>
          (\<forall>pre. tp = Some pre \<longrightarrow>
             title (bookmarks s' ! j)
               = concat (replicate (count_list indices (int j)) pre) @ title (bookmarks s ! j) \<and>
             title (original_bookmarks s' ! j)
               = concat (replicate (count_list indices (int j)) pre)
                   @ title (original_bookmarks s ! j)) \<and>
          (\<forall>d. po = Some d \<longrightarrow>
             page (bookmarks s' ! j)
               = map_option (\<lambda>p. p + int (count_list indices (int j)) * d)
                   (page (bookmarks s ! j)) \<and>
             page (original_bookmarks s' ! j)
               = map_option (\<lambda>p. p + int (count_list indices (int j)) * d)
                   (page (original_bookmarks s ! j))) \<and>
          (\<forall>d. lo = Some d \<longrightarrow> int j \<in> set indices \<longrightarrow>
             level (original_bookmarks s' ! j) = level (bookmarks s' ! j)))"
  proof (intro exI conjI)
    show "batch_update_bookmarks s indices tp po lo = Returned s'" by (rule run)
    show "(bookmarks s', original_bookmarks s') = ?r" using c o by simp
    show "length (bookmarks s') = length (bookmarks s)" using c len by simp
    show "length (original_bookmarks s') = length (bookmarks s')" using c o len eq by simp
    show "\<forall>j < length (bookmarks s).
          (int j \<notin> set indices \<longrightarrow>
             bookmarks s' ! j = bookmarks s ! j \<and>
             original_bookmarks s' ! j = original_bookmarks s ! j) \<and>
          (\<forall>pre. tp = Some pre \<longrightarrow>
             title (bookmarks s' ! j)
               = concat (replicate (count_list indices (int j)) pre) @ title (bookmarks s ! j) \<and>
             title (original_bookmarks s' ! j)
               = concat (replicate (count_list indices (int j)) pre)
                   @ title (original_bookmarks s ! j)) \<and>
          (\<forall>d. po = Some d \<longrightarrow>
             page (bookmarks s' ! j)
               = map_option (\<lambda>p. p + int (count_list indices (int j)) * d)
                   (page (bookmarks s ! j)) \<and>
             page (original_bookmarks s' ! j)
               = map_option (\<lambda>p. p + int (count_list indices (int j)) * d)
                   (page (original_bookmarks s ! j))) \<and>
          (\<forall>d. lo = Some d \<longrightarrow> int j \<in> set indices \<longrightarrow>
             level (original_bookmarks s' ! j) = level (bookmarks s' ! j))"
      using entries unfolding c o .
  qed
qed


theorem edit_operations_keep_sequences_aligned_witness:
  "length (bookmarks ex_store) = length (original_bookmarks ex_store) \<and>
   (0 \<le> (1::int) \<and> (1::int) < int (length (bookmarks ex_store))) \<and>
   (\<exists>s'. remove_bookmark ex_store 1 = Returned s' \<and>
      bookmarks s' = [\<lparr>title = ascii ''A'', page = Some 1, level = 0\<rparr>] \<and>
      original_bookmarks s' = [\<lparr>title = ascii ''A'', page = Some 1, level = 0\<rparr>]) \<and>
   (\<exists>s'. update_bookmark ex_store 1 (Some (ascii ''C'')) None (Some 2) = Returned s' \<and>
      bookmarks s' = [\<lparr>title = ascii ''A'', page = Some 1, level = 0\<rparr>,
                      \<lparr>title = ascii ''C'', page = Some 2, level = 2\<rparr>] \<and>
      original_bookmarks s' = bookmarks s') \<and>
   (\<exists>s'. move_bookmark ex_store 1 (ascii ''up'') = Returned s' \<and>
      bookmarks s' = [\<lparr>title = ascii ''B'', page = Some 2, level = 1\<rparr>,
                      \<lparr>title = ascii ''A'', page = Some 1, level = 0\<rparr>] \<and>
      original_bookmarks s' = bookmarks s') \<and>
   (\<exists>s'. batch_update_bookmarks ex_store [1, 5, 1] (Some (ascii ''x'')) (Some 2) (Some 1)
            = Returned s' \<and>
      bookmarks s' = [\<lparr>title = ascii ''A'', page = Some 1, level = 0\<rparr>,
                      \<lparr>title = ascii ''xxB'', page = Some 6, level = 3\<rparr>] \<and>
      original_bookmarks s' = bookmarks s')"
  using edit_operations_keep_sequences_aligned
          [where s = ex_store and index = 1 and ut = "Some (ascii ''C'')" and up = None
             and ul = "Some 2" and direction = "ascii ''up''" and indices = "[1, 5, 1]"
             and tp = "Some (ascii ''x'')" and po = "Some 2" and lo = "Some 1"]
  by (simp add: ex_store_def new_store_def add_bookmark_def Let_def remove_bookmark_def
      update_bookmark_def move_bookmark_def batch_update_bookmarks_def batch_step_def
      write_both_def swap_both_def swap_def del_at_def index_ok_def ascii_def)

section \<open>Outline writer: skipped entries and the parent rule\<close>




























section \<open>TOC parser on the example inputs\<close>

lemma toc_entries_markdown:
  "toc_entries (ascii ''# Title 5'' @ [10] @ ascii ''## Sub 6'')
     = Inr [\<lparr>title = ascii ''Title 5'', page = Some 5, level = 0\<rparr>,
            \<lparr>title = ascii ''Sub 6'', page = Some 6, level = 1\<rparr>]"
  by code_simp

lemma markdown_ranks:
  "markdown_levels (split_lines (ascii ''# Title 5'' @ [10] @ ascii ''## Sub 6'')) = [1, 2] \<and>
   level_mapping (split_lines (ascii ''# Title 5'' @ [10] @ ascii ''## Sub 6'')) 1 = Some 0 \<and>
   level_mapping (split_lines (ascii ''# Title 5'' @ [10] @ ascii ''## Sub 6'')) 2 = Some 1"
  by code_simp

lemma markdown_groups:
  "markdown_match (ascii ''# Title 5'') = Some (ascii ''#'', ascii ''Title 5'') \<and>
   markdown_match (ascii ''## Sub 6'') = Some (ascii ''##'', ascii ''Sub 6'')"
  by code_simp

lemma toc_entries_dotted:
  "toc_entries (ascii ''1.1.1 Detail 10'')
     = Inr [\<lparr>title = ascii ''1.1.1 Detail'', page = Some 10, level = 2\<rparr>]"
  by code_simp

lemma dotted_matches:
  "page_match (ascii ''1.1.1 Detail 10'') = Some (13, ascii ''10'') \<and>
   chapter_match (ascii ''1.1.1 Detail'') = Some (ascii ''1.1.1'') \<and>
   count_list (ascii ''1.1.1'') 46 = 2 \<and>
   markdown_match (ascii ''1.1.1 Detail 10'') = None"
  by code_simp

lemma toc_entries_deep:
  "toc_entries (ascii ''1.1.1.1.1 Deep 10'')
     = Inr [\<lparr>title = ascii ''1.1.1.1.1 Deep'', page = Some 10, level = 4\<rparr>]"
  by code_simp

lemma deep_matches:
  "chapter_match (ascii ''1.1.1.1.1 Deep'') = Some (ascii ''1.1.1.1.1'') \<and>
   count_list (ascii ''1.1.1.1.1'') 46 = 4"
  by code_simp

text \<open>
  Digits outside ASCII and the digit limit: the full-width page number of
  \<^verbatim>\<open>A\<close>, space, U+FF11, U+FF12 is read as 12, and a run of more than 4300 digits makes
  \<^verbatim>\<open>int()\<close>, hence the call, raise after the undo snapshot was recorded.
\<close>

lemma toc_entries_fullwidth_digits:
  "toc_entries [65, 32, 65297, 65298] = Inr [\<lparr>title = ascii ''A'', page = Some 12, level = 0\<rparr>]"
  by code_simp

lemma int_of_digits_limit:
  "4300 < length ds \<Longrightarrow> int_of_digits ds = Inl ValueError"
  by (simp add: int_of_digits_def max_str_digits_def)

lemma parse_toc_text_raises:
  "toc_entries t = Inl e \<Longrightarrow> parse_toc_text s t = (Inl e, save_state s)"
  by (simp add: parse_toc_text_def)

text \<open>
  Claim C3 asks that every entry produced by \<^verbatim>\<open>parse_toc_text\<close> has a level between 0
  and 3.  The parser does not do that: for the line \<^verbatim>\<open>1.1.1.1.1 Deep 10\<close> the numbering
  prefix has four dots, \<^verbatim>\<open>level = max(level, dots)\<close> is not capped, and the call
  returns, from any state, the one entry with level 4.
\<close>

theorem parse_toc_text_level_four:
  "fst (parse_toc_text s (ascii ''1.1.1.1.1 Deep 10''))
     = Inr [\<lparr>title = ascii ''1.1.1.1.1 Deep'', page = Some 10, level = 4\<rparr>] \<and>
   map_sum id (map level) (fst (parse_toc_text s (ascii ''1.1.1.1.1 Deep 10''))) = Inr [4] \<and>
   chapter_match (ascii ''1.1.1.1.1 Deep'') = Some (ascii ''1.1.1.1.1'') \<and>
   count_list (ascii ''1.1.1.1.1'') 46 = 4"
  using toc_entries_deep deep_matches by (simp add: parse_toc_text_def Let_def)

text \<open>
  Claim C6 asks that \<^verbatim>\<open># Title 5\<close>, newline, \<^verbatim>\<open>## Sub 6\<close> parses to the titles
  \<^verbatim>\<open>Title\<close> and \<^verbatim>\<open>Sub\<close> with pages 5, 6 and levels 0, 1.  Pages and levels are those
  (the hash counts 1 and 2 have the ranks 0 and 1), but the Markdown branch replaces the
  title, from which the page had been cut off, by group 2 of the match on the whole line,
  so the parser returns the titles \<^verbatim>\<open>Title 5\<close> and \<^verbatim>\<open>Sub 6\<close>.
\<close>

theorem parse_toc_text_markdown_titles:
  "fst (parse_toc_text s (ascii ''# Title 5'' @ [10] @ ascii ''## Sub 6''))
     = Inr [\<lparr>title = ascii ''Title 5'', page = Some 5, level = 0\<rparr>,
            \<lparr>title = ascii ''Sub 6'', page = Some 6, level = 1\<rparr>] \<and>
   markdown_match (ascii ''# Title 5'') = Some (ascii ''#'', ascii ''Title 5'') \<and>
   markdown_match (ascii ''## Sub 6'') = Some (ascii ''##'', ascii ''Sub 6'') \<and>
   level_mapping (split_lines (ascii ''# Title 5'' @ [10] @ ascii ''## Sub 6'')) 1 = Some 0 \<and>
   level_mapping (split_lines (ascii ''# Title 5'' @ [10] @ ascii ''## Sub 6'')) 2 = Some 1"
  using toc_entries_markdown markdown_ranks markdown_groups
  by (simp add: parse_toc_text_def Let_def)

text \<open>
  Claim C7.  The single line \<^verbatim>\<open>1.1.1 Detail 10\<close> parses, from any state, to the one
  entry with title \<^verbatim>\<open>1.1.1 Detail\<close>, page 10 and level 2: the trailing digits are the
  page, the line is no Markdown heading so the title keeps its numbering, and the matched
  prefix \<^verbatim>\<open>1.1.1\<close> has two dots.  The same list becomes \<^verbatim>\<open>self.original_bookmarks\<close>.
\<close>

theorem parse_toc_text_dotted_numbering:
  "fst (parse_toc_text s (ascii ''1.1.1 Detail 10''))
     = Inr [\<lparr>title = ascii ''1.1.1 Detail'', page = Some 10, level = 2\<rparr>] \<and>
   original_bookmarks (snd (parse_toc_text s (ascii ''1.1.1 Detail 10'')))
     = [\<lparr>title = ascii ''1.1.1 Detail'', page = Some 10, level = 2\<rparr>] \<and>
   page_match (ascii ''1.1.1 Detail 10'') = Some (13, ascii ''10'') \<and>
   chapter_match (ascii ''1.1.1 Detail'') = Some (ascii ''1.1.1'') \<and>
   count_list (ascii ''1.1.1'') 46 = 2 \<and>
   markdown_match (ascii ''1.1.1 Detail 10'') = None"
  using toc_entries_dotted dotted_matches by (simp add: parse_toc_text_def Let_def)

end
